theory Spec2Isabelle
  imports Complex_Main
begin

section \<open>Telework commute pipeline: data model\<close>

text \<open>
  The script works on JSON objects decoded into Python dictionaries. A dictionary key the
  code reads with \<open>d[k]\<close> is a field of type \<open>option\<close>: \<open>None\<close> is the absent key, and
  reading it raises \<open>KeyError\<close>. Exceptions are values of \<open>py_error\<close>; a computation that
  may raise has the type \<open>py_error + 'a\<close>, with \<open>Inl\<close> the raised exception.
\<close>

datatype py_error = KeyError string | TypeError | RequestError

definition getitem :: "string \<Rightarrow> 'a option \<Rightarrow> py_error + 'a" where
  "getitem k v = (case v of None \<Rightarrow> Inl (KeyError k) | Some x \<Rightarrow> Inr x)"

definition EMPLOYEE_ADDRESS_TYPE_FIELD :: string where
  "EMPLOYEE_ADDRESS_TYPE_FIELD = ''Employee_Address_Type''"

definition WORK_ADDRESS_TYPE :: string where
  "WORK_ADDRESS_TYPE = ''WORK''"

definition HOME_ADDRESS_TYPE :: string where
  "HOME_ADDRESS_TYPE = ''HOME''"

text \<open>
  A geocode result (one entry of the geocoder's \<open>locations\<close> array). Only the keys the
  matcher and the disambiguation read are kept: \<open>attributes.ResultID\<close>,
  \<open>attributes.Employee_Address_Type\<close>, \<open>address\<close> and \<open>score\<close>.
\<close>

record attrs =
  ResultID :: "int option"
  Employee_Address_Type :: "string option"

record location =
  attributes :: "attrs option"
  address :: "string option"
  score :: "real option"

text \<open>A complete, tagged geocode result, for concrete inputs.\<close>

definition geocoded :: "int \<Rightarrow> string \<Rightarrow> string \<Rightarrow> real \<Rightarrow> location" where
  "geocoded rid ty addr sc =
     \<lparr>attributes = Some \<lparr>ResultID = Some rid, Employee_Address_Type = Some ty\<rparr>,
      address = Some addr, score = Some sc\<rparr>"

text \<open>The employee identifier and the tag of a result, when they can be read.\<close>

definition employee_of :: "location \<Rightarrow> int option" where
  "employee_of l = (case attributes l of None \<Rightarrow> None | Some a \<Rightarrow> ResultID a)"

definition address_type_of :: "location \<Rightarrow> string option" where
  "address_type_of l = (case attributes l of None \<Rightarrow> None | Some a \<Rightarrow> Employee_Address_Type a)"


section \<open>CommuteMatcher: \<open>match_work_and_home\<close>\<close>

text \<open>
  The generator handed to \<open>next(..., None)\<close>: the first entry of the pool with the same
  \<open>ResultID\<close>, another address and another tag. The three tests are joined by \<open>and\<close>, so
  a later key is read only when the earlier tests passed, and an entry in front of the
  match that lacks a key which is read raises.
\<close>

fun find_matching :: "location list \<Rightarrow> int \<Rightarrow> string \<Rightarrow> string \<Rightarrow> py_error + location option" where
  "find_matching [] employee addr ty = Inr None"
| "find_matching (l # ls) employee addr ty =
     (case getitem ''attributes'' (attributes l) of
        Inl e \<Rightarrow> Inl e
      | Inr a \<Rightarrow>
     (case getitem ''ResultID'' (ResultID a) of
        Inl e \<Rightarrow> Inl e
      | Inr rid \<Rightarrow>
          if rid \<noteq> employee then find_matching ls employee addr ty
          else
     (case getitem ''address'' (address l) of
        Inl e \<Rightarrow> Inl e
      | Inr ad \<Rightarrow>
          if ad = addr then find_matching ls employee addr ty
          else
     (case getitem EMPLOYEE_ADDRESS_TYPE_FIELD (Employee_Address_Type a) of
        Inl e \<Rightarrow> Inl e
      | Inr t \<Rightarrow>
          if t \<noteq> ty then Inr (Some l)
          else find_matching ls employee addr ty))))"

record match_state =
  found_employees :: "int list"
  origins :: "location list"
  destinations :: "location list"
  flagged_employees :: "int list"

definition init_state :: match_state where
  "init_state = \<lparr>found_employees = [], origins = [], destinations = [], flagged_employees = []\<rparr>"

text \<open>\<open>if employee not in flagged_employees: flagged_employees.append(employee)\<close>\<close>

definition flag :: "int \<Rightarrow> match_state \<Rightarrow> match_state" where
  "flag employee st =
     (if employee \<in> set (flagged_employees st) then st
      else st\<lparr>flagged_employees := flagged_employees st @ [employee]\<rparr>)"

definition mark_found :: "int \<Rightarrow> match_state \<Rightarrow> match_state" where
  "mark_found employee st = st\<lparr>found_employees := found_employees st @ [employee]\<rparr>"

text \<open>
  The body of the \<open>try\<close> for one result. An exception comes with the value the variable
  \<open>employee\<close> holds when it is raised: \<open>None\<close> before the identifier is read. A
  \<open>continue\<close> is the returned state. The append to \<open>found_employees\<close> follows the
  \<open>if\<close>/\<open>else\<close> on the scores, so it runs on both of its branches.
\<close>

definition match_try :: "location list \<Rightarrow> location \<Rightarrow> match_state \<Rightarrow> (int option \<times> py_error) + match_state" where
  "match_try locations loc st =
     (case getitem ''attributes'' (attributes loc) of
        Inl e \<Rightarrow> Inl (None, e)
      | Inr a \<Rightarrow>
     (case getitem ''ResultID'' (ResultID a) of
        Inl e \<Rightarrow> Inl (None, e)
      | Inr employee \<Rightarrow>
          if employee \<in> set (found_employees st) \<or> employee \<in> set (flagged_employees st) then Inr st
          else
     (case getitem EMPLOYEE_ADDRESS_TYPE_FIELD (Employee_Address_Type a) of
        Inl e \<Rightarrow> Inl (Some employee, e)
      | Inr employee_address_type \<Rightarrow>
     (case getitem ''address'' (address loc) of
        Inl e \<Rightarrow> Inl (Some employee, e)
      | Inr addr \<Rightarrow>
     (case find_matching locations employee addr employee_address_type of
        Inl e \<Rightarrow> Inl (Some employee, e)
      | Inr None \<Rightarrow> Inr (flag employee st)
      | Inr (Some matching_location) \<Rightarrow>
     (case getitem ''score'' (score loc) of
        Inl e \<Rightarrow> Inl (Some employee, e)
      | Inr s1 \<Rightarrow>
          if s1 = 0 then Inr (mark_found employee (flag employee st))
          else
     (case getitem ''score'' (score matching_location) of
        Inl e \<Rightarrow> Inl (Some employee, e)
      | Inr s2 \<Rightarrow>
          if s2 = 0 then Inr (mark_found employee (flag employee st))
          else Inr (mark_found employee
                 (st\<lparr>origins := origins st @ [loc],
                     destinations := destinations st @ [matching_location]\<rparr>)))))))))"

text \<open>
  The \<open>except Exception\<close> handler: \<open>if employee:\<close> is Python truthiness, false for
  \<open>None\<close> and for the integer \<open>0\<close>.
\<close>

definition match_except :: "int option \<Rightarrow> match_state \<Rightarrow> match_state" where
  "match_except employee st =
     (case employee of
        None \<Rightarrow> st
      | Some e \<Rightarrow> if e \<noteq> 0 then flag e st else st)"

definition match_iter :: "location list \<Rightarrow> location \<Rightarrow> match_state \<Rightarrow> match_state" where
  "match_iter locations loc st =
     (case match_try locations loc st of
        Inl (employee, e) \<Rightarrow> match_except employee st
      | Inr st' \<Rightarrow> st')"

text \<open>
  The \<open>for\<close> loop over the results still to process; the pool searched for a counterpart
  is always the whole input.
\<close>

fun match_loop :: "location list \<Rightarrow> location list \<Rightarrow> match_state \<Rightarrow> match_state" where
  "match_loop locations [] st = st"
| "match_loop locations (loc # rest) st = match_loop locations rest (match_iter locations loc st)"

definition match_work_and_home :: "location list \<Rightarrow> location list \<times> location list \<times> int list" where
  "match_work_and_home locations =
     (let st = match_loop locations locations init_state
      in (origins st, destinations st, flagged_employees st))"


section \<open>GeocodeDisambiguator: the tagging inside \<open>geocode_addresses\<close>\<close>

text \<open>
  The geocoder's answer is the parameter: the request raised, or it gave a JSON object
  with or without the key \<open>locations\<close>. The \<open>try\<close> covers the request only, so a
  \<open>KeyError\<close> while tagging leaves the function. Assigning to a key of the dictionary
  \<open>locations[i]["attributes"]\<close> updates the entry of the returned list.
\<close>

datatype geocode_response = GeocodeRequestFailed | GeocodeJson "location list option"

definition geocode_addresses :: "geocode_response \<Rightarrow> py_error + location list option" where
  "geocode_addresses res =
     (case res of
        GeocodeRequestFailed \<Rightarrow> Inr None
      | GeocodeJson None \<Rightarrow> Inr None
      | GeocodeJson (Some locations) \<Rightarrow>
          if length locations = 0 then Inr None
          else if length locations = 2 then
            (case getitem ''attributes'' (attributes (locations ! 0)) of
               Inl e \<Rightarrow> Inl e
             | Inr first_location \<Rightarrow>
            (case getitem ''ResultID'' (ResultID first_location) of
               Inl e \<Rightarrow> Inl e
             | Inr first_location_id \<Rightarrow>
            (case getitem ''attributes'' (attributes (locations ! 1)) of
               Inl e \<Rightarrow> Inl e
             | Inr second_location \<Rightarrow>
            (case getitem ''ResultID'' (ResultID second_location) of
               Inl e \<Rightarrow> Inl e
             | Inr second_location_id \<Rightarrow>
                 if first_location_id > second_location_id then
                   Inr (Some
                     [(locations ! 0)\<lparr>attributes := Some (first_location
                         \<lparr>Employee_Address_Type := Some HOME_ADDRESS_TYPE,
                          ResultID := Some second_location_id\<rparr>)\<rparr>,
                      (locations ! 1)\<lparr>attributes := Some (second_location
                         \<lparr>Employee_Address_Type := Some WORK_ADDRESS_TYPE\<rparr>)\<rparr>])
                 else
                   Inr (Some
                     [(locations ! 0)\<lparr>attributes := Some (first_location
                         \<lparr>Employee_Address_Type := Some WORK_ADDRESS_TYPE\<rparr>)\<rparr>,
                      (locations ! 1)\<lparr>attributes := Some (second_location
                         \<lparr>Employee_Address_Type := Some HOME_ADDRESS_TYPE,
                          ResultID := Some first_location_id\<rparr>)\<rparr>])))))
          else Inr (Some locations))"


section \<open>Roster records: \<open>read_worker_info\<close>\<close>

















section \<open>CommuteRecordBuilder: \<open>write_output\<close>\<close>

text \<open>
  The values of a route feature go into the rows unchanged, so they stay dynamically
  typed. A row of the CSV file is a list of values.
\<close>

datatype val = VInt int | VFloat real | VStr string | VBool bool | VNone

record route_attrs =
  RouteName :: "val option"
  Total_Miles :: "val option"
  Total_Minutes :: "val option"
  From_Employee_Address_Type :: "val option"
  From_Lat :: "val option"
  From_Lon :: "val option"
  To_Lat :: "val option"
  To_Lon :: "val option"

record feature =
  route_attributes :: "route_attrs option"

definition HEADER :: "string list" where
  "HEADER = [''Employee_Number'', ''Commute_Miles'', ''Commute_Minutes'', ''Work_Latitude'',
             ''Work_Longitude'', ''Home_Latitude'', ''Home_Longitude'', ''Flagged'']"

text \<open>The body of the first loop for one feature, with its reads in the order of the source.\<close>

definition feature_row :: "feature \<Rightarrow> py_error + val list" where
  "feature_row f =
     (case getitem ''attributes'' (route_attributes f) of Inl e \<Rightarrow> Inl e | Inr a \<Rightarrow>
     (case getitem ''RouteName'' (RouteName a) of Inl e \<Rightarrow> Inl e | Inr employee_number \<Rightarrow>
     (case getitem ''Total_Miles'' (Total_Miles a) of Inl e \<Rightarrow> Inl e | Inr total_miles \<Rightarrow>
     (case getitem ''Total_Minutes'' (Total_Minutes a) of Inl e \<Rightarrow> Inl e | Inr total_minutes \<Rightarrow>
     (case getitem (''From_'' @ EMPLOYEE_ADDRESS_TYPE_FIELD) (From_Employee_Address_Type a) of
        Inl e \<Rightarrow> Inl e
      | Inr from_address_type \<Rightarrow>
          if from_address_type = VStr WORK_ADDRESS_TYPE then
            (case getitem ''From_Lat'' (From_Lat a) of Inl e \<Rightarrow> Inl e | Inr work_lat \<Rightarrow>
            (case getitem ''From_Lon'' (From_Lon a) of Inl e \<Rightarrow> Inl e | Inr work_lon \<Rightarrow>
            (case getitem ''To_Lat'' (To_Lat a) of Inl e \<Rightarrow> Inl e | Inr home_lat \<Rightarrow>
            (case getitem ''To_Lon'' (To_Lon a) of Inl e \<Rightarrow> Inl e | Inr home_lon \<Rightarrow>
               Inr [employee_number, total_miles, total_minutes,
                    work_lat, work_lon, home_lat, home_lon, VBool False]))))
          else
            (case getitem ''To_Lat'' (To_Lat a) of Inl e \<Rightarrow> Inl e | Inr work_lat \<Rightarrow>
            (case getitem ''To_Lon'' (To_Lon a) of Inl e \<Rightarrow> Inl e | Inr work_lon \<Rightarrow>
            (case getitem ''From_Lat'' (From_Lat a) of Inl e \<Rightarrow> Inl e | Inr home_lat \<Rightarrow>
            (case getitem ''From_Lon'' (From_Lon a) of Inl e \<Rightarrow> Inl e | Inr home_lon \<Rightarrow>
               Inr [employee_number, total_miles, total_minutes,
                    work_lat, work_lon, home_lat, home_lon, VBool False])))))))))"

fun feature_rows :: "feature list \<Rightarrow> val list list \<Rightarrow> py_error + val list list" where
  "feature_rows [] rows = Inr rows"
| "feature_rows (f # fs) rows =
     (case feature_row f of
        Inl e \<Rightarrow> Inl e
      | Inr r \<Rightarrow> feature_rows fs (rows @ [r]))"

fun flagged_rows :: "int list \<Rightarrow> val list list \<Rightarrow> val list list" where
  "flagged_rows [] rows = rows"
| "flagged_rows (emp # emps) rows =
     flagged_rows emps
       (rows @ [[VInt emp, VInt 0, VInt 0, VInt 0, VInt 0, VInt 0, VInt 0, VBool True]])"

text \<open>
  The result is the content of the output file, the header row first; \<open>None\<close> when
  writing raised, which the function catches and logs. \<open>writable\<close> says whether the
  file can be opened and written. The two loops are outside the \<open>try\<close>, so a feature
  without a key that is read raises out of the function and nothing is written.
\<close>

definition write_output :: "feature list \<Rightarrow> int list \<Rightarrow> string list \<Rightarrow> bool \<Rightarrow> py_error + val list list option" where
  "write_output features flagged header writable =
     (case feature_rows features [] of
        Inl e \<Rightarrow> Inl e
      | Inr rows1 \<Rightarrow>
          let rows = flagged_rows flagged rows1
          in Inr (if writable then Some (map VStr header # rows) else None))"

text \<open>A route feature that carries every attribute \<open>write_output\<close> reads.\<close>

definition complete_feature :: "feature \<Rightarrow> bool" where
  "complete_feature f =
     (case route_attributes f of
        None \<Rightarrow> False
      | Some a \<Rightarrow> RouteName a \<noteq> None \<and> Total_Miles a \<noteq> None \<and> Total_Minutes a \<noteq> None
          \<and> From_Employee_Address_Type a \<noteq> None \<and> From_Lat a \<noteq> None \<and> From_Lon a \<noteq> None
          \<and> To_Lat a \<noteq> None \<and> To_Lon a \<noteq> None)"


text \<open>A complete route feature, for concrete inputs.\<close>

definition route_feature :: "val \<Rightarrow> val \<Rightarrow> val \<Rightarrow> val \<Rightarrow> val \<Rightarrow> val \<Rightarrow> val \<Rightarrow> val \<Rightarrow> feature" where
  "route_feature name miles mins tag flat flon tlat tlon =
     \<lparr>route_attributes = Some
        \<lparr>RouteName = Some name, Total_Miles = Some miles, Total_Minutes = Some mins,
         From_Employee_Address_Type = Some tag, From_Lat = Some flat, From_Lon = Some flon,
         To_Lat = Some tlat, To_Lon = Some tlon\<rparr>\<rparr>"


section \<open>AnalysisJobController: \<open>generate_token\<close> and \<open>calculate_commute\<close>\<close>

text \<open>
  The remote services are a script of answers: one for the submission, one per status
  query, one per token request, one for the fetch of the routes. What the function does
  to the outside is a list of events: the requests with the token they carry, the
  sleeps, and the messages logged as critical. A token is \<open>None\<close> when
  \<open>generate_token\<close> returned nothing; the request is then sent with Python's rendering
  of \<open>None\<close>.
\<close>

datatype event =
    SubmitJob string string string string "string option"
  | GetStatus string string "string option"
  | GetRoutes string string string "string option"
  | GenerateToken string string
  | Sleep nat
  | Critical string

datatype error_json = ErrorJson (code: "int option") (message: "string option")

record token_json =
  token_error :: "error_json option"
  token_value :: "string option"

datatype token_response = TokenExc | TokenJson token_json

record status_json =
  jobStatus :: "string option"
  status_error :: "error_json option"
  paramUrl :: "string option"

datatype status_response = StatusExc | StatusJson status_json

datatype submit_response = SubmitExc | SubmitJson "string option"

datatype routes_response = RoutesExc | RoutesJson "feature list option"

record services =
  submit :: submit_response
  statuses :: "status_response list"
  tokens :: "token_response list"
  routes :: routes_response

definition TOKEN_REQUEST_FAILED :: string where
  "TOKEN_REQUEST_FAILED = ''An error occured when trying to generate a token.''"

definition TOKEN_REFUSED :: string where
  "TOKEN_REFUSED = ''Unable to generate a token.''"

definition ANALYSIS_FAILED :: string where
  "ANALYSIS_FAILED = ''Something caused the analysis tool to fail.''"

definition COMMUTE_ERROR :: string where
  "COMMUTE_ERROR = ''An error occurred while calculating the commutes.''"

text \<open>
  \<open>generate_token\<close>: the token, or \<open>None\<close> after a critical message when the request
  raised or the answer holds an \<open>error\<close>. Reading \<open>code\<close>, \<open>message\<close> or \<open>token\<close>
  from an answer without that key raises.
\<close>

definition generate_token :: "string \<Rightarrow> string \<Rightarrow> token_response \<Rightarrow> (py_error + string option) \<times> event list" where
  "generate_token username password res =
     (case res of
        TokenExc \<Rightarrow> (Inr None, [GenerateToken username password, Critical TOKEN_REQUEST_FAILED])
      | TokenJson res_json \<Rightarrow>
          (case token_error res_json of
             Some err \<Rightarrow>
               (case getitem ''code'' (code err) of
                  Inl e \<Rightarrow> (Inl e, [GenerateToken username password])
                | Inr statusCode \<Rightarrow>
               (case getitem ''message'' (message err) of
                  Inl e \<Rightarrow> (Inl e, [GenerateToken username password])
                | Inr msg \<Rightarrow> (Inr None, [GenerateToken username password, Critical TOKEN_REFUSED])))
           | None \<Rightarrow>
               (case getitem ''token'' (token_value res_json) of
                  Inl e \<Rightarrow> (Inl e, [GenerateToken username password])
                | Inr t \<Rightarrow> (Inr (Some t), [GenerateToken username password]))))"

definition in_progress :: "string \<Rightarrow> bool" where
  "in_progress job_status \<longleftrightarrow> job_status = ''esriJobSubmitted'' \<or> job_status = ''esriJobExecuting''"

text \<open>
  The \<open>while\<close> loop. Each turn takes the next scripted status answer; the result is
  \<open>None\<close> when the script ends while the loop would still poll, and otherwise the value
  returned (the route features, or Python's \<open>None\<close>) with the events so far. Every
  exception inside is caught by the \<open>except\<close> of \<open>calculate_commute\<close>, which logs
  \<open>COMMUTE_ERROR\<close> and returns nothing. A status other than the four named ones ends
  the loop after the sleep, and the function returns nothing without a message.
\<close>

fun poll :: "string \<Rightarrow> string \<Rightarrow> string \<Rightarrow> string \<Rightarrow> routes_response \<Rightarrow> string \<Rightarrow> string option
    \<Rightarrow> status_response list \<Rightarrow> token_response list \<Rightarrow> event list
    \<Rightarrow> (feature list option \<times> event list) option" where
  "poll url job_id username password rts job_status token [] toks trace =
     (if in_progress job_status then None else Some (None, trace))"
| "poll url job_id username password rts job_status token (r # rs) toks trace =
     (if \<not> in_progress job_status then Some (None, trace)
      else
        let trace1 = trace @ [GetStatus url job_id token] in
        (case r of
           StatusExc \<Rightarrow> Some (None, trace1 @ [Critical COMMUTE_ERROR])
         | StatusJson status \<Rightarrow>
             (case jobStatus status of
                Some js \<Rightarrow>
                  if js = ''esriJobSucceeded'' then
                    (case getitem ''paramUrl'' (paramUrl status) of
                       Inl e \<Rightarrow> Some (None, trace1 @ [Critical COMMUTE_ERROR])
                     | Inr routes_url \<Rightarrow>
                         let trace2 = trace1 @ [GetRoutes url job_id routes_url token] in
                         (case rts of
                            RoutesExc \<Rightarrow> Some (None, trace2 @ [Critical COMMUTE_ERROR])
                          | RoutesJson None \<Rightarrow> Some (None, trace2 @ [Critical COMMUTE_ERROR])
                          | RoutesJson (Some features) \<Rightarrow> Some (Some features, trace2)))
                  else if js = ''esriJobFailed'' then
                    Some (None, trace1 @ [Critical ANALYSIS_FAILED])
                  else
                    poll url job_id username password rts js token rs toks (trace1 @ [Sleep 3])
              | None \<Rightarrow>
                  (case status_error status of
                     Some err \<Rightarrow>
                       if code err = Some 498 then
                         (case toks of
                            [] \<Rightarrow> None
                          | t # ts \<Rightarrow>
                              (case generate_token username password t of
                                 (Inl e, evs) \<Rightarrow> Some (None, trace1 @ evs @ [Critical COMMUTE_ERROR])
                               | (Inr token', evs) \<Rightarrow>
                                   poll url job_id username password rts job_status token' rs ts
                                     (trace1 @ evs @ [Sleep 3])))
                       else Some (None, trace1 @ [Critical ANALYSIS_FAILED])
                   | None \<Rightarrow>
                       poll url job_id username password rts job_status token rs toks trace1))))"

definition calculate_commute :: "string \<Rightarrow> string \<Rightarrow> string \<Rightarrow> string \<Rightarrow> string option \<Rightarrow> string \<Rightarrow> string
    \<Rightarrow> services \<Rightarrow> (feature list option \<times> event list) option" where
  "calculate_commute analysis_url origin_fc dest_fc travel_mode token username password srv =
     (let url = analysis_url @ ''ConnectOriginsToDestinations'';
          trace0 = [SubmitJob url origin_fc dest_fc travel_mode token]
      in case submit srv of
           SubmitExc \<Rightarrow> Some (None, trace0 @ [Critical COMMUTE_ERROR])
         | SubmitJson None \<Rightarrow> Some (None, trace0 @ [Critical ANALYSIS_FAILED])
         | SubmitJson (Some job_id) \<Rightarrow>
             poll url job_id username password (routes srv) ''esriJobSubmitted'' token
               (statuses srv) (tokens srv) trace0)"


section \<open>Invariants of the matcher\<close>

text \<open>
  What holds of a pair the matcher emits for employee \<open>e\<close>: every key of the processed
  result was read, both scores are not zero, and the destination is what the search of
  the pool returned for it.
\<close>

definition matched_step :: "location list \<Rightarrow> location \<Rightarrow> location \<Rightarrow> int \<Rightarrow> bool" where
  "matched_step locations loc m e \<longleftrightarrow>
     (\<exists>addr ty s1 s2. employee_of loc = Some e \<and> address loc = Some addr
        \<and> address_type_of loc = Some ty \<and> score loc = Some s1 \<and> s1 \<noteq> 0
        \<and> score m = Some s2 \<and> s2 \<noteq> 0
        \<and> find_matching locations e addr ty = Inr (Some m))"

definition paired :: "location list \<Rightarrow> match_state \<Rightarrow> bool" where
  "paired locations st \<longleftrightarrow>
     list_all2 (\<lambda>orig dest. \<exists>e. matched_step locations orig dest e) (origins st) (destinations st)"

text \<open>
  Matched employees are recorded as found, are not flagged and occur once; a found
  employee is matched or flagged.
\<close>

definition separated :: "match_state \<Rightarrow> bool" where
  "separated st \<longleftrightarrow>
     distinct (map employee_of (origins st))
     \<and> (\<forall>orig \<in> set (origins st). \<exists>e. employee_of orig = Some e
          \<and> e \<in> set (found_employees st) \<and> e \<notin> set (flagged_employees st))
     \<and> (\<forall>e \<in> set (found_employees st).
          e \<in> set (flagged_employees st) \<or> Some e \<in> employee_of ` set (origins st))"

text \<open>A result with all the keys the matcher reads and a score that is not zero.\<close>

definition complete :: "location \<Rightarrow> bool" where
  "complete l \<longleftrightarrow>
     (\<exists>e addr ty s. employee_of l = Some e \<and> address l = Some addr
        \<and> address_type_of l = Some ty \<and> score l = Some s \<and> s \<noteq> 0)"


section \<open>Properties of the matcher\<close>


lemma find_matching_Some:
  "find_matching ls e addr ty = Inr (Some m) \<Longrightarrow>
     m \<in> set ls \<and> employee_of m = Some e
     \<and> (\<exists>ad. address m = Some ad \<and> ad \<noteq> addr)
     \<and> (\<exists>t. address_type_of m = Some t \<and> t \<noteq> ty)"
proof (induction ls)
  case Nil
  then show ?case by simp
next
  case (Cons l ls)
  then show ?case
    by (auto simp: getitem_def employee_of_def address_type_of_def
             split: option.splits if_splits)
qed

lemma match_iter_cases:
  "match_iter locations loc st = st
   \<or> (\<exists>e. e \<notin> set (found_employees st) \<and> e \<notin> set (flagged_employees st) \<and>
        (match_iter locations loc st = flag e st
         \<or> match_iter locations loc st = mark_found e (flag e st)
         \<or> (\<exists>m. matched_step locations loc m e \<and>
              match_iter locations loc st =
                mark_found e (st\<lparr>origins := origins st @ [loc],
                                  destinations := destinations st @ [m]\<rparr>))))"
  unfolding match_iter_def match_try_def match_except_def matched_step_def
  by (auto simp: getitem_def employee_of_def address_type_of_def
           split: option.splits if_splits sum.splits)


lemma flag_simps [simp]:
  "origins (flag e st) = origins st"
  "destinations (flag e st) = destinations st"
  "found_employees (flag e st) = found_employees st"
  "set (flagged_employees (flag e st)) = insert e (set (flagged_employees st))"
  by (auto simp: flag_def)

lemma mark_found_simps [simp]:
  "origins (mark_found e st) = origins st"
  "destinations (mark_found e st) = destinations st"
  "flagged_employees (mark_found e st) = flagged_employees st"
  "found_employees (mark_found e st) = found_employees st @ [e]"
  by (auto simp: mark_found_def)

lemma paired_iter: "paired locations st \<Longrightarrow> paired locations (match_iter locations loc st)"
  using match_iter_cases [of locations loc st]
  by (auto simp: paired_def intro!: list_all2_appendI)

lemma paired_loop: "paired locations st \<Longrightarrow> paired locations (match_loop locations pending st)"
  by (induction pending arbitrary: st) (auto simp: paired_iter)

lemma paired_init: "paired locations init_state"
  by (simp add: paired_def init_state_def)

lemma separated_iter: "separated st \<Longrightarrow> separated (match_iter locations loc st)"
proof -
  assume inv: "separated st"
  consider (same) "match_iter locations loc st = st"
    | (flagged) e where "e \<notin> set (found_employees st)" "match_iter locations loc st = flag e st"
    | (zero) e where "e \<notin> set (found_employees st)" "match_iter locations loc st = mark_found e (flag e st)"
    | (matched) e m where "e \<notin> set (found_employees st)" "e \<notin> set (flagged_employees st)"
        "matched_step locations loc m e"
        "match_iter locations loc st =
           mark_found e (st\<lparr>origins := origins st @ [loc], destinations := destinations st @ [m]\<rparr>)"
    using match_iter_cases [of locations loc st] by blast
  then show ?thesis
  proof cases
    case same
    with inv show ?thesis by simp
  next
    case flagged
    with inv show ?thesis by (fastforce simp: separated_def)
  next
    case zero
    with inv show ?thesis by (fastforce simp: separated_def)
  next
    case matched
    from matched(3) have e: "employee_of loc = Some e" by (simp add: matched_step_def)
    from inv matched(1) have fresh: "Some e \<notin> employee_of ` set (origins st)"
      by (auto simp: separated_def)
    from inv have d: "distinct (map employee_of (origins st))"
      and o: "\<forall>orig \<in> set (origins st). \<exists>e. employee_of orig = Some e
          \<and> e \<in> set (found_employees st) \<and> e \<notin> set (flagged_employees st)"
      and f: "\<forall>e \<in> set (found_employees st).
          e \<in> set (flagged_employees st) \<or> Some e \<in> employee_of ` set (origins st)"
      by (simp_all add: separated_def)
    have "distinct (map employee_of (origins st @ [loc]))"
      using d fresh e by simp
    moreover have "\<forall>orig \<in> set (origins st @ [loc]). \<exists>e'. employee_of orig = Some e'
          \<and> e' \<in> set (found_employees st @ [e]) \<and> e' \<notin> set (flagged_employees st)"
      using o e matched(2) by auto
    moreover have "\<forall>e' \<in> set (found_employees st @ [e]).
          e' \<in> set (flagged_employees st) \<or> Some e' \<in> employee_of ` set (origins st @ [loc])"
      using f e by force
    ultimately show ?thesis
      unfolding separated_def matched(4) by simp
  qed
qed

lemma separated_loop: "separated st \<Longrightarrow> separated (match_loop locations pending st)"
  by (induction pending arbitrary: st) (auto simp: separated_iter)


lemma find_matching_complete:
  "\<forall>l \<in> set ls. complete l \<Longrightarrow>
     find_matching ls e addr ty =
       Inr (find (\<lambda>l. employee_of l = Some e \<and> address l \<noteq> Some addr
                      \<and> address_type_of l \<noteq> Some ty) ls)"
proof (induction ls)
  case Nil
  then show ?case by simp
next
  case (Cons l ls)
  then have "complete l" and rest: "\<forall>l \<in> set ls. complete l" by simp_all
  then obtain a e' ad t where "attributes l = Some a" "ResultID a = Some e'"
      "address l = Some ad" "Employee_Address_Type a = Some t"
    by (auto simp: complete_def employee_of_def address_type_of_def split: option.splits)
  then show ?case using Cons.IH [OF rest]
    by (simp add: getitem_def employee_of_def address_type_of_def)
qed

lemma list_all2_left: "list_all2 P xs ys \<Longrightarrow> x \<in> set xs \<Longrightarrow> \<exists>y \<in> set ys. P x y"
  by (induction rule: list_all2_induct) auto

lemma list_all2_right: "list_all2 P xs ys \<Longrightarrow> y \<in> set ys \<Longrightarrow> \<exists>x \<in> set xs. P x y"
  by (induction rule: list_all2_induct) auto

lemma matched_step_facts:
  "matched_step locations orig dest e \<Longrightarrow>
     complete orig \<and> complete dest \<and> employee_of orig = Some e \<and> employee_of dest = Some e
     \<and> address dest \<noteq> address orig \<and> address_type_of dest \<noteq> address_type_of orig"
  by (auto simp: matched_step_def complete_def dest!: find_matching_Some)

lemma paired_complete:
  assumes "paired locations st"
  shows "\<forall>l \<in> set (origins st @ destinations st). complete l"
    and "employee_of ` set (destinations st) = employee_of ` set (origins st)"
proof -
  let ?P = "\<lambda>orig dest. \<exists>e. matched_step locations orig dest e"
  from assms have all2: "list_all2 ?P (origins st) (destinations st)"
    by (simp add: paired_def)
  have l: "\<exists>d \<in> set (destinations st). ?P orig d" if "orig \<in> set (origins st)" for orig
    using list_all2_left [OF all2 that] .
  have r: "\<exists>orig \<in> set (origins st). ?P orig d" if "d \<in> set (destinations st)" for d
    using list_all2_right [OF all2 that] .
  show "\<forall>l \<in> set (origins st @ destinations st). complete l"
  proof
    fix x assume "x \<in> set (origins st @ destinations st)"
    then consider "x \<in> set (origins st)" | "x \<in> set (destinations st)" by auto
    then show "complete x"
      using l r matched_step_facts by cases blast+
  qed
  show "employee_of ` set (destinations st) = employee_of ` set (origins st)"
  proof (intro set_eqI iffI)
    fix v assume "v \<in> employee_of ` set (destinations st)"
    then obtain d where d: "d \<in> set (destinations st)" "v = employee_of d" by auto
    from r [OF d(1)] obtain orig e where "orig \<in> set (origins st)" "matched_step locations orig d e"
      by blast
    with d show "v \<in> employee_of ` set (origins st)"
      using matched_step_facts [of locations orig d e] by force
  next
    fix v assume "v \<in> employee_of ` set (origins st)"
    then obtain orig where o: "orig \<in> set (origins st)" "v = employee_of orig" by auto
    from l [OF o(1)] obtain d e where "d \<in> set (destinations st)" "matched_step locations orig d e"
      by blast
    with o show "v \<in> employee_of ` set (destinations st)"
      using matched_step_facts [of locations orig d e] by force
  qed
qed


lemma separated_init: "separated init_state"
  by (simp add: separated_def init_state_def)

lemma origins_from_input:
  "set (origins (match_loop locations pending st)) \<subseteq> set (origins st) \<union> set pending"
proof (induction pending arbitrary: st)
  case Nil
  then show ?case by simp
next
  case (Cons loc pending)
  have "set (origins (match_iter locations loc st)) \<subseteq> insert loc (set (origins st))"
    using match_iter_cases [of locations loc st] by auto
  with Cons.IH [of "match_iter locations loc st"] show ?case by auto
qed

lemmas matcher_eval =
  match_work_and_home_def match_iter_def match_try_def match_except_def geocoded_def
  getitem_def init_state_def flag_def mark_found_def EMPLOYEE_ADDRESS_TYPE_FIELD_def
  WORK_ADDRESS_TYPE_def HOME_ADDRESS_TYPE_def employee_of_def address_type_of_def

text \<open>
  Claim C1. For every input list, the origins and destinations returned by
  \<open>match_work_and_home\<close> have the same length, and at every index the origin and the
  destination carry the same employee identifier (the same \<open>ResultID\<close>).
\<close>

theorem origins_destinations_aligned:
  assumes "match_work_and_home locations = (os, ds, fl)"
  shows "length os = length ds \<and>
         (\<forall>i < length os. \<exists>e. employee_of (os ! i) = Some e \<and> employee_of (ds ! i) = Some e)"
proof -
  let ?st = "match_loop locations locations init_state"
  from assms have os: "os = origins ?st" and ds: "ds = destinations ?st"
    by (simp_all add: match_work_and_home_def Let_def)
  have "paired locations ?st"
    by (rule paired_loop [OF paired_init])
  then have "list_all2 (\<lambda>orig dest. \<exists>e. matched_step locations orig dest e) os ds"
    by (simp add: paired_def os ds)
  then have len: "length os = length ds"
    and nth: "\<forall>i < length os. \<exists>e. matched_step locations (os ! i) (ds ! i) e"
    by (simp_all add: list_all2_conv_all_nth)
  from nth have "\<forall>i < length os. \<exists>e. employee_of (os ! i) = Some e \<and> employee_of (ds ! i) = Some e"
    using matched_step_facts by blast
  with len show ?thesis by simp
qed

theorem origins_destinations_aligned_witness:
  "match_work_and_home
     [geocoded 7 ''WORK'' ''1 Main St'' 100, geocoded 7 ''HOME'' ''2 Oak Ave'' 98,
      geocoded 9 ''WORK'' ''5 Elm Rd'' 100]
   = ([geocoded 7 ''WORK'' ''1 Main St'' 100], [geocoded 7 ''HOME'' ''2 Oak Ave'' 98], [9])
   \<and> length [geocoded 7 ''WORK'' ''1 Main St'' 100] = length [geocoded 7 ''HOME'' ''2 Oak Ave'' 98]
   \<and> (\<exists>e. employee_of ([geocoded 7 ''WORK'' ''1 Main St'' 100] ! 0) = Some e
            \<and> employee_of ([geocoded 7 ''HOME'' ''2 Oak Ave'' 98] ! 0) = Some e)"
proof -
  have run: "match_work_and_home
     [geocoded 7 ''WORK'' ''1 Main St'' 100, geocoded 7 ''HOME'' ''2 Oak Ave'' 98,
      geocoded 9 ''WORK'' ''5 Elm Rd'' 100]
   = ([geocoded 7 ''WORK'' ''1 Main St'' 100], [geocoded 7 ''HOME'' ''2 Oak Ave'' 98], [9])"
    by (simp add: matcher_eval)
  show ?thesis
    using run origins_destinations_aligned [OF run] by simp
qed





text \<open>
  Claim C5, as stated, fails: the result appended to the origins is the one the loop is
  processing, whatever its tag. When the HOME result of a pair comes first in the
  input, it is the origin and the WORK result the destination.
\<close>

theorem home_first_is_origin:
  "match_work_and_home
     [geocoded 5 ''HOME'' ''2 Oak Ave'' 100, geocoded 5 ''WORK'' ''1 Main St'' 100]
   = ([geocoded 5 ''HOME'' ''2 Oak Ave'' 100], [geocoded 5 ''WORK'' ''1 Main St'' 100], [])
   \<and> address_type_of (geocoded 5 ''HOME'' ''2 Oak Ave'' 100) = Some HOME_ADDRESS_TYPE
   \<and> address_type_of (geocoded 5 ''WORK'' ''1 Main St'' 100) = Some WORK_ADDRESS_TYPE"
  by (simp add: matcher_eval)

text \<open>
  Claim C5, amended. For every matched pair, the origin is the result of the input the
  loop was processing and the destination is the counterpart the search of the pool
  returned for it; both are tagged and their tags differ, so of two tags WORK and HOME
  one is on each side, in either order.
\<close>

theorem origin_is_processed_result:
  assumes "match_work_and_home locations = (os, ds, fl)" and "i < length os"
  shows "os ! i \<in> set locations \<and> ds ! i \<in> set locations \<and>
         (\<exists>e addr ty ty'.
            employee_of (os ! i) = Some e \<and> address (os ! i) = Some addr
            \<and> address_type_of (os ! i) = Some ty
            \<and> find_matching locations e addr ty = Inr (Some (ds ! i))
            \<and> address_type_of (ds ! i) = Some ty' \<and> ty' \<noteq> ty)"
proof -
  let ?st = "match_loop locations locations init_state"
  from assms(1) have os: "os = origins ?st" and ds: "ds = destinations ?st"
    by (simp_all add: match_work_and_home_def Let_def)
  have "paired locations ?st"
    by (rule paired_loop [OF paired_init])
  then have "list_all2 (\<lambda>orig dest. \<exists>e. matched_step locations orig dest e) os ds"
    by (simp add: paired_def os ds)
  with assms(2) obtain e where step: "matched_step locations (os ! i) (ds ! i) e"
    by (auto simp: list_all2_conv_all_nth)
  then obtain addr ty where fields: "employee_of (os ! i) = Some e" "address (os ! i) = Some addr"
      "address_type_of (os ! i) = Some ty"
      and found: "find_matching locations e addr ty = Inr (Some (ds ! i))"
    by (auto simp: matched_step_def)
  from find_matching_Some [OF found] obtain ty' where
    dest: "ds ! i \<in> set locations" "address_type_of (ds ! i) = Some ty'" "ty' \<noteq> ty"
    by blast
  have "set os \<subseteq> set locations"
    using origins_from_input [of locations locations init_state] os
    by (simp add: init_state_def)
  with assms(2) have "os ! i \<in> set locations"
    by (meson nth_mem subsetD)
  with fields found dest show ?thesis by blast
qed

theorem origin_is_processed_result_witness:
  "match_work_and_home
     [geocoded 5 ''HOME'' ''2 Oak Ave'' 100, geocoded 5 ''WORK'' ''1 Main St'' 100]
   = ([geocoded 5 ''HOME'' ''2 Oak Ave'' 100], [geocoded 5 ''WORK'' ''1 Main St'' 100], [])
   \<and> (0::nat) < length [geocoded 5 ''HOME'' ''2 Oak Ave'' 100]
   \<and> (\<exists>e addr ty ty'.
        employee_of ([geocoded 5 ''HOME'' ''2 Oak Ave'' 100] ! 0) = Some e
        \<and> address ([geocoded 5 ''HOME'' ''2 Oak Ave'' 100] ! 0) = Some addr
        \<and> address_type_of ([geocoded 5 ''HOME'' ''2 Oak Ave'' 100] ! 0) = Some ty
        \<and> find_matching
             [geocoded 5 ''HOME'' ''2 Oak Ave'' 100, geocoded 5 ''WORK'' ''1 Main St'' 100] e addr ty
            = Inr (Some ([geocoded 5 ''WORK'' ''1 Main St'' 100] ! 0))
        \<and> address_type_of ([geocoded 5 ''WORK'' ''1 Main St'' 100] ! 0) = Some ty' \<and> ty' \<noteq> ty)"
proof -
  have run: "match_work_and_home
     [geocoded 5 ''HOME'' ''2 Oak Ave'' 100, geocoded 5 ''WORK'' ''1 Main St'' 100]
   = ([geocoded 5 ''HOME'' ''2 Oak Ave'' 100], [geocoded 5 ''WORK'' ''1 Main St'' 100], [])"
    by (simp add: matcher_eval)
  have idx: "(0::nat) < length [geocoded 5 ''HOME'' ''2 Oak Ave'' 100]" by simp
  show ?thesis
    using run idx origin_is_processed_result [OF run idx] by blast
qed

lemma failure_flags_nonzero_employee:
  assumes "match_try locations loc st = Inl (Some e, err)" and "e \<noteq> 0"
  shows "e \<in> set (flagged_employees (match_iter locations loc st))"
  using assms by (simp add: match_iter_def match_except_def)

text \<open>
  Claim C7. A failure while one result is processed never stops the loop, and the
  handler flags the employee, as \<open>failure_flags_nonzero_employee\<close> shows, unless the
  identifier is \<open>0\<close>: the handler tests \<open>if employee:\<close>, which is false for \<open>0\<close>. A
  result with \<open>ResultID\<close> 0 and no address-type tag raises after the identifier was
  read, and the employee is neither flagged nor matched.
\<close>

theorem zero_employee_failure_not_flagged:
  "match_try
     [\<lparr>attributes = Some \<lparr>ResultID = Some 0, Employee_Address_Type = None\<rparr>,
       address = Some ''1 Main St'', score = Some 100\<rparr>]
     \<lparr>attributes = Some \<lparr>ResultID = Some 0, Employee_Address_Type = None\<rparr>,
      address = Some ''1 Main St'', score = Some 100\<rparr> init_state
   = Inl (Some 0, KeyError ''Employee_Address_Type'')
   \<and> match_work_and_home
     [\<lparr>attributes = Some \<lparr>ResultID = Some 0, Employee_Address_Type = None\<rparr>,
       address = Some ''1 Main St'', score = Some 100\<rparr>]
   = ([], [], [])"
  by (simp add: matcher_eval)

lemma find_the_only:
  assumes "d \<in> set xs" and "p d" and "\<forall>x \<in> set xs. p x \<longrightarrow> x = d"
  shows "find p xs = Some d"
  using assms
proof (induction xs)
  case Nil
  then show ?case by simp
next
  case (Cons a xs)
  show ?case
  proof (cases "p a")
    case True
    with Cons.prems(3) have "a = d" by simp
    with True show ?thesis by simp
  next
    case False
    with Cons.prems(1,2) have "d \<in> set xs" by (cases "d = a") simp_all
    moreover from Cons.prems(3) have "\<forall>x \<in> set xs. p x \<longrightarrow> x = d" by simp
    ultimately have "find p xs = Some d"
      using Cons.IH Cons.prems(2) by blast
    with False show ?thesis by simp
  qed
qed

lemma complete_pool_match:
  assumes all: "\<forall>l \<in> set pool. complete l"
    and x: "x \<in> set pool" and d: "d \<in> set pool"
    and e: "employee_of x = Some e" "employee_of d = Some e"
    and differ: "address d \<noteq> address x" "address_type_of d \<noteq> address_type_of x"
    and only: "\<forall>y \<in> set pool. employee_of y = Some e \<longrightarrow> y = x \<or> y = d"
    and fresh: "e \<notin> set (found_employees st)" "e \<notin> set (flagged_employees st)"
  shows "match_iter pool x st =
           mark_found e (st\<lparr>origins := origins st @ [x], destinations := destinations st @ [d]\<rparr>)"
proof -
  from all x have "complete x" by simp
  with e(1) obtain a addr ty s where
    x_fields: "attributes x = Some a" "ResultID a = Some e" "address x = Some addr"
      "Employee_Address_Type a = Some ty" "score x = Some s" "s \<noteq> 0"
    by (auto simp: complete_def employee_of_def address_type_of_def split: option.splits)
  then have tx: "address_type_of x = Some ty"
    by (simp add: address_type_of_def)
  let ?p = "\<lambda>l. employee_of l = Some e \<and> address l \<noteq> Some addr \<and> address_type_of l \<noteq> Some ty"
  have pd: "?p d"
    using e(2) differ x_fields(3) tx by simp
  have "\<forall>y \<in> set pool. ?p y \<longrightarrow> y = d"
    using only x_fields(3) by auto
  with d pd have "find ?p pool = Some d"
    by (intro find_the_only)
  then have fm: "find_matching pool e addr ty = Inr (Some d)"
    using find_matching_complete [OF all] by simp
  from all d have "complete d" by simp
  then obtain s2 where "score d = Some s2" "s2 \<noteq> 0"
    by (auto simp: complete_def)
  with x_fields fm fresh show ?thesis
    by (simp add: match_iter_def match_try_def getitem_def)
qed

lemma skip_found:
  assumes "\<forall>x \<in> set pending. \<exists>e. employee_of x = Some e \<and> e \<in> set (found_employees st)"
  shows "match_loop pool pending st = st"
  using assms
proof (induction pending)
  case Nil
  then show ?case by simp
next
  case (Cons x pending)
  then obtain e where "employee_of x = Some e" "e \<in> set (found_employees st)" by auto
  then have "match_iter pool x st = st"
    by (auto simp: match_iter_def match_try_def getitem_def employee_of_def split: option.splits)
  with Cons show ?case by simp
qed



lemma rematch_loop:
  assumes all: "\<forall>l \<in> set pool. complete l"
  shows "list_all2 (\<lambda>x d. x \<in> set pool \<and> d \<in> set pool
              \<and> employee_of d = employee_of x \<and> address d \<noteq> address x
              \<and> address_type_of d \<noteq> address_type_of x
              \<and> (\<forall>y \<in> set pool. employee_of y = employee_of x \<longrightarrow> y = x \<or> y = d)) xs ds
         \<Longrightarrow> distinct (map employee_of xs)
         \<Longrightarrow> \<forall>x \<in> set xs. employee_of x \<notin> Some ` set (found_employees st)
         \<Longrightarrow> flagged_employees st = []
         \<Longrightarrow> origins (match_loop pool xs st) = origins st @ xs
             \<and> destinations (match_loop pool xs st) = destinations st @ ds
             \<and> flagged_employees (match_loop pool xs st) = []
             \<and> Some ` set (found_employees (match_loop pool xs st))
                 = Some ` set (found_employees st) \<union> employee_of ` set xs"
proof (induction xs ds arbitrary: st rule: list_all2_induct)
  case Nil
  then show ?case by simp
next
  case (Cons x xs d ds)
  from Cons.hyps(1) have x: "x \<in> set pool" and d: "d \<in> set pool"
    and same: "employee_of d = employee_of x"
    and differ: "address d \<noteq> address x" "address_type_of d \<noteq> address_type_of x"
    and only: "\<forall>y \<in> set pool. employee_of y = employee_of x \<longrightarrow> y = x \<or> y = d"
    by blast+
  from all x obtain e where e: "employee_of x = Some e"
    by (auto simp: complete_def)
  from Cons.prems(2) e have fresh: "e \<notin> set (found_employees st)" by auto
  from Cons.prems(3) have fresh2: "e \<notin> set (flagged_employees st)" by simp
  from same e have ed: "employee_of d = Some e" by simp
  from only e have only': "\<forall>y \<in> set pool. employee_of y = Some e \<longrightarrow> y = x \<or> y = d" by simp
  let ?st = "mark_found e (st\<lparr>origins := origins st @ [x], destinations := destinations st @ [d]\<rparr>)"
  have step: "match_iter pool x st = ?st"
    by (rule complete_pool_match [OF all x d e ed differ only' fresh fresh2])
  have d1: "distinct (map employee_of xs)" and notin: "employee_of x \<notin> employee_of ` set xs"
    using Cons.prems(1) by simp_all
  have fresh': "\<forall>y \<in> set xs. employee_of y \<notin> Some ` set (found_employees ?st)"
  proof
    fix y assume y: "y \<in> set xs"
    with Cons.prems(2) have "employee_of y \<notin> Some ` set (found_employees st)" by simp
    moreover from y notin e have "employee_of y \<noteq> Some e" by force
    ultimately show "employee_of y \<notin> Some ` set (found_employees ?st)" by simp
  qed
  have fl: "flagged_employees ?st = []"
    using Cons.prems(3) by simp
  have "match_loop pool (x # xs) st = match_loop pool xs ?st"
    using step by simp
  moreover note Cons.IH [OF d1 fresh' fl]
  ultimately show ?case
    using e by simp
qed


lemma match_loop_append:
  "match_loop pool (xs @ ys) st = match_loop pool ys (match_loop pool xs st)"
  by (induction xs arbitrary: st) simp_all

text \<open>
  Claim C9. The matched output never holds an employee twice, and running
  \<open>match_work_and_home\<close> again on the origins followed by the destinations flags
  nobody and matches every employee again: it returns the same origins and the same
  destinations.
\<close>

theorem rerun_reproduces_output:
  assumes "match_work_and_home locations = (os, ds, fl)"
  shows "distinct (map employee_of os) \<and> match_work_and_home (os @ ds) = (os, ds, [])"
proof -
  let ?st = "match_loop locations locations init_state"
  let ?pool = "os @ ds"
  from assms have os: "os = origins ?st" and ds: "ds = destinations ?st"
    by (simp_all add: match_work_and_home_def Let_def)
  have p: "paired locations ?st"
    by (rule paired_loop [OF paired_init])
  have "separated ?st"
    by (rule separated_loop [OF separated_init])
  then have dist: "distinct (map employee_of os)"
    by (simp add: separated_def os)
  have all: "\<forall>l \<in> set ?pool. complete l"
    using paired_complete(1) [OF p] os ds by simp
  from p have "list_all2 (\<lambda>orig dest. \<exists>e. matched_step locations orig dest e) os ds"
    by (simp add: paired_def os ds)
  then have len: "length os = length ds"
    and nth: "\<And>i. i < length os \<Longrightarrow> \<exists>e. matched_step locations (os ! i) (ds ! i) e"
    by (simp_all add: list_all2_conv_all_nth)
  have facts: "employee_of (ds ! i) = employee_of (os ! i) \<and> address (ds ! i) \<noteq> address (os ! i)
               \<and> address_type_of (ds ! i) \<noteq> address_type_of (os ! i)"
    if "i < length os" for i
    using nth [OF that] matched_step_facts by fastforce
  have index: "j = i"
    if "i < length os" "j < length os" "employee_of (os ! j) = employee_of (os ! i)" for i j
  proof -
    have "(map employee_of os ! j = map employee_of os ! i) = (j = i)"
      using dist that(1,2) by (intro nth_eq_iff_index_eq) simp_all
    with that show ?thesis by simp
  qed
  have only: "y = os ! i \<or> y = ds ! i"
    if i: "i < length os" and y: "y \<in> set ?pool" "employee_of y = employee_of (os ! i)" for i y
  proof -
    from y(1) consider "y \<in> set os" | "y \<in> set ds" by auto
    then show ?thesis
    proof cases
      case 1
      then obtain j where j: "j < length os" "y = os ! j"
        by (auto simp: in_set_conv_nth)
      with index [OF i j(1)] y(2) show ?thesis by simp
    next
      case 2
      then obtain j where j: "j < length os" "y = ds ! j"
        using len by (auto simp: in_set_conv_nth)
      with facts [OF j(1)] y(2) have "employee_of (os ! j) = employee_of (os ! i)" by simp
      from index [OF i j(1) this] j show ?thesis by simp
    qed
  qed
  have pairs: "list_all2 (\<lambda>x d. x \<in> set ?pool \<and> d \<in> set ?pool
              \<and> employee_of d = employee_of x \<and> address d \<noteq> address x
              \<and> address_type_of d \<noteq> address_type_of x
              \<and> (\<forall>y \<in> set ?pool. employee_of y = employee_of x \<longrightarrow> y = x \<or> y = d)) os ds"
    unfolding list_all2_conv_all_nth
  proof (intro conjI allI impI)
    show "length os = length ds" by (rule len)
  next
    fix i assume "i < length os"
    then show "os ! i \<in> set ?pool" by simp
  next
    fix i assume "i < length os"
    with len show "ds ! i \<in> set ?pool" by simp
  next
    fix i assume "i < length os"
    from facts [OF this] show "employee_of (ds ! i) = employee_of (os ! i)" by simp
  next
    fix i assume "i < length os"
    from facts [OF this] show "address (ds ! i) \<noteq> address (os ! i)" by simp
  next
    fix i assume "i < length os"
    from facts [OF this] show "address_type_of (ds ! i) \<noteq> address_type_of (os ! i)" by simp
  next
    fix i assume i: "i < length os"
    show "\<forall>y \<in> set ?pool. employee_of y = employee_of (os ! i) \<longrightarrow> y = os ! i \<or> y = ds ! i"
      using only [OF i] by blast
  qed
  let ?st1 = "match_loop ?pool os init_state"
  have first: "origins ?st1 = origins init_state @ os
             \<and> destinations ?st1 = destinations init_state @ ds
             \<and> flagged_employees ?st1 = []
             \<and> Some ` set (found_employees ?st1)
                 = Some ` set (found_employees init_state) \<union> employee_of ` set os"
    by (rule rematch_loop [OF all pairs dist]) (simp_all add: init_state_def)
  have same: "employee_of ` set ds = employee_of ` set os"
    using paired_complete(2) [OF p] os ds by simp
  have "\<forall>x \<in> set ds. \<exists>e. employee_of x = Some e \<and> e \<in> set (found_employees ?st1)"
  proof
    fix x assume "x \<in> set ds"
    then have "employee_of x \<in> employee_of ` set os" using same by blast
    with first have "employee_of x \<in> Some ` set (found_employees ?st1)"
      by (simp add: init_state_def)
    then show "\<exists>e. employee_of x = Some e \<and> e \<in> set (found_employees ?st1)" by force
  qed
  then have "match_loop ?pool ds ?st1 = ?st1"
    by (rule skip_found)
  then have "match_loop ?pool ?pool init_state = ?st1"
    by (simp add: match_loop_append)
  with first have "match_work_and_home ?pool = (os, ds, [])"
    by (simp add: match_work_and_home_def Let_def init_state_def)
  with dist show ?thesis by simp
qed

theorem rerun_reproduces_output_witness:
  "match_work_and_home
     [geocoded 7 ''WORK'' ''1 Main St'' 100, geocoded 7 ''HOME'' ''2 Oak Ave'' 98,
      geocoded 9 ''WORK'' ''5 Elm Rd'' 100]
   = ([geocoded 7 ''WORK'' ''1 Main St'' 100], [geocoded 7 ''HOME'' ''2 Oak Ave'' 98], [9])
   \<and> distinct (map employee_of [geocoded 7 ''WORK'' ''1 Main St'' 100])
   \<and> match_work_and_home
       ([geocoded 7 ''WORK'' ''1 Main St'' 100] @ [geocoded 7 ''HOME'' ''2 Oak Ave'' 98])
     = ([geocoded 7 ''WORK'' ''1 Main St'' 100], [geocoded 7 ''HOME'' ''2 Oak Ave'' 98], [])"
proof -
  have run: "match_work_and_home
     [geocoded 7 ''WORK'' ''1 Main St'' 100, geocoded 7 ''HOME'' ''2 Oak Ave'' 98,
      geocoded 9 ''WORK'' ''5 Elm Rd'' 100]
   = ([geocoded 7 ''WORK'' ''1 Main St'' 100], [geocoded 7 ''HOME'' ''2 Oak Ave'' 98], [9])"
    by (simp add: matcher_eval)
  show ?thesis
    using run rerun_reproduces_output [OF run] by blast
qed


section \<open>Properties of the roster records\<close>











section \<open>Properties of the disambiguation\<close>


text \<open>
  Claim C3. When the geocoder returns exactly two results whose identifiers can be
  read, the disambiguation tags one WORK and the other HOME, never both the same: WORK
  goes to the result with the smaller original identifier (the first on a tie), and
  afterwards both results store that smaller identifier, the HOME result's own being
  overwritten. Address and score are left as they were.
\<close>

theorem disambiguation_tags_pair:
  assumes "attributes a = Some attrs_a" and "ResultID attrs_a = Some x"
    and "attributes b = Some attrs_b" and "ResultID attrs_b = Some y"
  shows "\<exists>a' b'. geocode_addresses (GeocodeJson (Some [a, b])) = Inr (Some [a', b'])
           \<and> ((address_type_of a' = Some WORK_ADDRESS_TYPE \<and> address_type_of b' = Some HOME_ADDRESS_TYPE
                 \<and> x \<le> y)
               \<or> (address_type_of a' = Some HOME_ADDRESS_TYPE \<and> address_type_of b' = Some WORK_ADDRESS_TYPE
                 \<and> y < x))
           \<and> address_type_of a' \<noteq> address_type_of b'
           \<and> employee_of a' = Some (min x y) \<and> employee_of b' = Some (min x y)
           \<and> address a' = address a \<and> score a' = score a
           \<and> address b' = address b \<and> score b' = score b"
  using assms
  by (auto simp: geocode_addresses_def getitem_def address_type_of_def employee_of_def
        WORK_ADDRESS_TYPE_def HOME_ADDRESS_TYPE_def)

theorem disambiguation_tags_pair_witness:
  "attributes \<lparr>attributes = Some \<lparr>ResultID = Some 101, Employee_Address_Type = None\<rparr>,
       address = Some ''2 Oak Ave'', score = Some 100\<rparr>
     = Some \<lparr>ResultID = Some 101, Employee_Address_Type = None\<rparr>
   \<and> ResultID \<lparr>ResultID = Some 101, Employee_Address_Type = None\<rparr> = Some 101
   \<and> attributes \<lparr>attributes = Some \<lparr>ResultID = Some 100, Employee_Address_Type = None\<rparr>,
       address = Some ''1 Main St'', score = Some 100\<rparr>
     = Some \<lparr>ResultID = Some 100, Employee_Address_Type = None\<rparr>
   \<and> ResultID \<lparr>ResultID = Some 100, Employee_Address_Type = None\<rparr> = Some 100
   \<and> geocode_addresses (GeocodeJson (Some
        [\<lparr>attributes = Some \<lparr>ResultID = Some 101, Employee_Address_Type = None\<rparr>,
          address = Some ''2 Oak Ave'', score = Some 100\<rparr>,
         \<lparr>attributes = Some \<lparr>ResultID = Some 100, Employee_Address_Type = None\<rparr>,
          address = Some ''1 Main St'', score = Some 100\<rparr>]))
     = Inr (Some [geocoded 100 ''HOME'' ''2 Oak Ave'' 100, geocoded 100 ''WORK'' ''1 Main St'' 100])"
  using disambiguation_tags_pair
    [of "\<lparr>attributes = Some \<lparr>ResultID = Some 101, Employee_Address_Type = None\<rparr>,
          address = Some ''2 Oak Ave'', score = Some 100\<rparr>"
        "\<lparr>ResultID = Some 101, Employee_Address_Type = None\<rparr>" 101
        "\<lparr>attributes = Some \<lparr>ResultID = Some 100, Employee_Address_Type = None\<rparr>,
          address = Some ''1 Main St'', score = Some 100\<rparr>"
        "\<lparr>ResultID = Some 100, Employee_Address_Type = None\<rparr>" 100]
  by (simp add: geocode_addresses_def getitem_def geocoded_def HOME_ADDRESS_TYPE_def WORK_ADDRESS_TYPE_def)

section \<open>Properties of the output rows\<close>


lemma feature_row_complete:
  assumes "complete_feature f"
  shows "\<exists>a name miles mins tag flat flon tlat tlon.
           route_attributes f = Some a \<and> RouteName a = Some name \<and> Total_Miles a = Some miles
           \<and> Total_Minutes a = Some mins \<and> From_Employee_Address_Type a = Some tag
           \<and> From_Lat a = Some flat \<and> From_Lon a = Some flon
           \<and> To_Lat a = Some tlat \<and> To_Lon a = Some tlon
           \<and> feature_row f = Inr
                (if tag = VStr ''WORK''
                 then [name, miles, mins, flat, flon, tlat, tlon, VBool False]
                 else [name, miles, mins, tlat, tlon, flat, flon, VBool False])"
proof -
  from assms obtain a where a: "route_attributes f = Some a"
    by (auto simp: complete_feature_def split: option.splits)
  with assms obtain name miles mins tag flat flon tlat tlon where
    "RouteName a = Some name" "Total_Miles a = Some miles" "Total_Minutes a = Some mins"
    "From_Employee_Address_Type a = Some tag" "From_Lat a = Some flat" "From_Lon a = Some flon"
    "To_Lat a = Some tlat" "To_Lon a = Some tlon"
    by (auto simp: complete_feature_def)
  with a show ?thesis
    by (simp add: feature_row_def getitem_def WORK_ADDRESS_TYPE_def)
qed

lemma feature_rows_complete:
  "\<forall>f \<in> set fs. complete_feature f \<Longrightarrow>
     \<exists>rs. feature_rows fs rows = Inr (rows @ rs) \<and> length rs = length fs
        \<and> (\<forall>i < length fs. feature_row (fs ! i) = Inr (rs ! i))"
proof (induction fs arbitrary: rows)
  case Nil
  then show ?case by simp
next
  case (Cons f fs)
  then have "complete_feature f" and rest: "\<forall>f \<in> set fs. complete_feature f" by simp_all
  then obtain r where r: "feature_row f = Inr r"
    using feature_row_complete [of f] by blast
  from Cons.IH [OF rest, of "rows @ [r]"] obtain rs where
    rs: "feature_rows fs (rows @ [r]) = Inr ((rows @ [r]) @ rs)" "length rs = length fs"
      "\<forall>i < length fs. feature_row (fs ! i) = Inr (rs ! i)"
    by blast
  have "\<forall>i < length (f # fs). feature_row ((f # fs) ! i) = Inr ((r # rs) ! i)"
    using r rs(3) by (auto simp: nth_Cons split: nat.splits)
  with r rs(1,2) show ?case
    by (intro exI [of _ "r # rs"]) simp
qed

lemma flagged_rows_append:
  "flagged_rows emps rows =
     rows @ map (\<lambda>emp. [VInt emp, VInt 0, VInt 0, VInt 0, VInt 0, VInt 0, VInt 0, VBool True]) emps"
  by (induction emps arbitrary: rows) simp_all

text \<open>
  Claim C6. For route features that carry the attributes read and an output file that
  can be written, \<open>write_output\<close> writes the header and then exactly one row per
  route feature, in their order, followed by exactly one row per flagged employee, in
  their order. A matched row takes the WORK coordinates from the From side when the
  From tag is WORK and from the To side otherwise, and is not marked; a flagged row is
  the employee, six zeros and the marker. No row is left out.
\<close>

theorem one_row_per_feature_then_flagged:
  assumes "\<forall>f \<in> set features. complete_feature f" and "writable"
  shows "\<exists>rows. write_output features flagged header writable = Inr (Some (map VStr header # rows))
           \<and> length rows = length features + length flagged
           \<and> (\<forall>i < length features.
                \<exists>a name miles mins tag flat flon tlat tlon.
                  route_attributes (features ! i) = Some a \<and> RouteName a = Some name
                  \<and> Total_Miles a = Some miles \<and> Total_Minutes a = Some mins
                  \<and> From_Employee_Address_Type a = Some tag
                  \<and> From_Lat a = Some flat \<and> From_Lon a = Some flon
                  \<and> To_Lat a = Some tlat \<and> To_Lon a = Some tlon
                  \<and> rows ! i =
                      (if tag = VStr ''WORK''
                       then [name, miles, mins, flat, flon, tlat, tlon, VBool False]
                       else [name, miles, mins, tlat, tlon, flat, flon, VBool False]))
           \<and> (\<forall>j < length flagged.
                rows ! (length features + j) =
                  [VInt (flagged ! j), VInt 0, VInt 0, VInt 0, VInt 0, VInt 0, VInt 0, VBool True])"
proof -
  let ?zero = "\<lambda>emp. [VInt emp, VInt 0, VInt 0, VInt 0, VInt 0, VInt 0, VInt 0, VBool True]"
  from feature_rows_complete [OF assms(1), of "[]"] obtain rs where
    rs: "feature_rows features [] = Inr rs" "length rs = length features"
      "\<forall>i < length features. feature_row (features ! i) = Inr (rs ! i)"
    by auto
  let ?rows = "rs @ map ?zero flagged"
  have out: "write_output features flagged header writable = Inr (Some (map VStr header # ?rows))"
    using rs(1) assms(2) by (simp add: write_output_def flagged_rows_append)
  have len: "length ?rows = length features + length flagged"
    using rs(2) by simp
  have matched: "\<exists>a name miles mins tag flat flon tlat tlon.
                  route_attributes (features ! i) = Some a \<and> RouteName a = Some name
                  \<and> Total_Miles a = Some miles \<and> Total_Minutes a = Some mins
                  \<and> From_Employee_Address_Type a = Some tag
                  \<and> From_Lat a = Some flat \<and> From_Lon a = Some flon
                  \<and> To_Lat a = Some tlat \<and> To_Lon a = Some tlon
                  \<and> ?rows ! i =
                      (if tag = VStr ''WORK''
                       then [name, miles, mins, flat, flon, tlat, tlon, VBool False]
                       else [name, miles, mins, tlat, tlon, flat, flon, VBool False])"
    if i: "i < length features" for i
  proof -
    from i assms(1) have "complete_feature (features ! i)" by simp
    from feature_row_complete [OF this] obtain a name miles mins tag flat flon tlat tlon where
      f: "route_attributes (features ! i) = Some a" "RouteName a = Some name"
        "Total_Miles a = Some miles" "Total_Minutes a = Some mins"
        "From_Employee_Address_Type a = Some tag" "From_Lat a = Some flat" "From_Lon a = Some flon"
        "To_Lat a = Some tlat" "To_Lon a = Some tlon"
      and row: "feature_row (features ! i) = Inr
                (if tag = VStr ''WORK''
                 then [name, miles, mins, flat, flon, tlat, tlon, VBool False]
                 else [name, miles, mins, tlat, tlon, flat, flon, VBool False])"
      by blast
    from rs(3) i row have "rs ! i = (if tag = VStr ''WORK''
                 then [name, miles, mins, flat, flon, tlat, tlon, VBool False]
                 else [name, miles, mins, tlat, tlon, flat, flon, VBool False])"
      by simp
    moreover from i rs(2) have "?rows ! i = rs ! i"
      by (simp add: nth_append)
    ultimately show ?thesis using f by simp
  qed
  have zero: "?rows ! (length features + j) = ?zero (flagged ! j)" if "j < length flagged" for j
    using that rs(2) by (simp add: nth_append)
  from out len matched zero show ?thesis
    by (intro exI [of _ ?rows]) blast
qed


lemmas output_eval =
  write_output_def feature_row_def getitem_def route_feature_def complete_feature_def
  HEADER_def WORK_ADDRESS_TYPE_def EMPLOYEE_ADDRESS_TYPE_FIELD_def

theorem one_row_per_feature_then_flagged_witness:
  "complete_feature (route_feature (VStr ''7'') (VInt 12) (VInt 25) (VStr ''WORK'')
       (VInt 38) (VInt (-121)) (VInt 39) (VInt (-122)))
   \<and> complete_feature (route_feature (VStr ''11'') (VInt 3) (VInt 9) (VStr ''HOME'')
       (VInt 40) (VInt (-120)) (VInt 41) (VInt (-123)))
   \<and> write_output
       [route_feature (VStr ''7'') (VInt 12) (VInt 25) (VStr ''WORK'')
          (VInt 38) (VInt (-121)) (VInt 39) (VInt (-122)),
        route_feature (VStr ''11'') (VInt 3) (VInt 9) (VStr ''HOME'')
          (VInt 40) (VInt (-120)) (VInt 41) (VInt (-123))]
       [9] HEADER True
     = Inr (Some
        [map VStr HEADER,
         [VStr ''7'', VInt 12, VInt 25, VInt 38, VInt (-121), VInt 39, VInt (-122), VBool False],
         [VStr ''11'', VInt 3, VInt 9, VInt 41, VInt (-123), VInt 40, VInt (-120), VBool False],
         [VInt 9, VInt 0, VInt 0, VInt 0, VInt 0, VInt 0, VInt 0, VBool True]])"
proof -
  let ?f1 = "route_feature (VStr ''7'') (VInt 12) (VInt 25) (VStr ''WORK'')
       (VInt 38) (VInt (-121)) (VInt 39) (VInt (-122))"
  let ?f2 = "route_feature (VStr ''11'') (VInt 3) (VInt 9) (VStr ''HOME'')
       (VInt 40) (VInt (-120)) (VInt 41) (VInt (-123))"
  have c1: "complete_feature ?f1" and c2: "complete_feature ?f2"
    by (simp_all add: output_eval)
  then have all: "\<forall>f \<in> set [?f1, ?f2]. complete_feature f" by simp
  have run: "write_output [?f1, ?f2] [9] HEADER True
     = Inr (Some
        [map VStr HEADER,
         [VStr ''7'', VInt 12, VInt 25, VInt 38, VInt (-121), VInt 39, VInt (-122), VBool False],
         [VStr ''11'', VInt 3, VInt 9, VInt 41, VInt (-123), VInt 40, VInt (-120), VBool False],
         [VInt 9, VInt 0, VInt 0, VInt 0, VInt 0, VInt 0, VInt 0, VBool True]])"
    by (simp add: output_eval)
  show ?thesis
    using c1 c2 run one_row_per_feature_then_flagged [OF all TrueI, of "[9]" HEADER]
    by simp
qed

section \<open>Properties of the job controller\<close>


lemmas controller_eval =
  calculate_commute_def generate_token_def in_progress_def getitem_def Let_def

text \<open>
  Claim C2. When the status queries answer executing, executing, an error with code
  498, and succeeded, \<open>calculate_commute\<close> asks for a token exactly once, with the
  user name and password it was given, polls the same job with the new token, fetches
  the routes with it and returns their features; no critical message is logged.
\<close>

theorem token_refreshed_once:
  "calculate_commute analysis_url origin_fc dest_fc travel_mode token username password
     \<lparr>submit = SubmitJson (Some job_id),
      statuses =
        [StatusJson \<lparr>jobStatus = Some ''esriJobExecuting'', status_error = e1, paramUrl = p1\<rparr>,
         StatusJson \<lparr>jobStatus = Some ''esriJobExecuting'', status_error = e2, paramUrl = p2\<rparr>,
         StatusJson \<lparr>jobStatus = None, status_error = Some (ErrorJson (Some 498) msg),
                     paramUrl = p3\<rparr>,
         StatusJson \<lparr>jobStatus = Some ''esriJobSucceeded'', status_error = e4,
                     paramUrl = Some routes_url\<rparr>],
      tokens = TokenJson \<lparr>token_error = None, token_value = Some new_token\<rparr> # later_tokens,
      routes = RoutesJson (Some features)\<rparr>
   = Some (Some features,
       [SubmitJob (analysis_url @ ''ConnectOriginsToDestinations'') origin_fc dest_fc travel_mode token,
        GetStatus (analysis_url @ ''ConnectOriginsToDestinations'') job_id token,
        Sleep 3,
        GetStatus (analysis_url @ ''ConnectOriginsToDestinations'') job_id token,
        Sleep 3,
        GetStatus (analysis_url @ ''ConnectOriginsToDestinations'') job_id token,
        GenerateToken username password,
        Sleep 3,
        GetStatus (analysis_url @ ''ConnectOriginsToDestinations'') job_id (Some new_token),
        GetRoutes (analysis_url @ ''ConnectOriginsToDestinations'') job_id routes_url
          (Some new_token)])"
  by (simp add: controller_eval)

theorem token_refreshed_once_witness:
  "calculate_commute ''https://analysis.example/'' ''origins'' ''destinations'' ''Driving Distance''
     (Some ''old'') ''user'' ''secret''
     \<lparr>submit = SubmitJson (Some ''j1''),
      statuses =
        [StatusJson \<lparr>jobStatus = Some ''esriJobExecuting'', status_error = None, paramUrl = None\<rparr>,
         StatusJson \<lparr>jobStatus = Some ''esriJobExecuting'', status_error = None, paramUrl = None\<rparr>,
         StatusJson \<lparr>jobStatus = None, status_error = Some (ErrorJson (Some 498) (Some ''Invalid token.'')),
                     paramUrl = None\<rparr>,
         StatusJson \<lparr>jobStatus = Some ''esriJobSucceeded'', status_error = None,
                     paramUrl = Some ''results/routesLayer''\<rparr>],
      tokens = TokenJson \<lparr>token_error = None, token_value = Some ''new''\<rparr> # [],
      routes = RoutesJson (Some [])\<rparr>
   = Some (Some [],
       [SubmitJob (''https://analysis.example/'' @ ''ConnectOriginsToDestinations'')
          ''origins'' ''destinations'' ''Driving Distance'' (Some ''old''),
        GetStatus (''https://analysis.example/'' @ ''ConnectOriginsToDestinations'') ''j1'' (Some ''old''),
        Sleep 3,
        GetStatus (''https://analysis.example/'' @ ''ConnectOriginsToDestinations'') ''j1'' (Some ''old''),
        Sleep 3,
        GetStatus (''https://analysis.example/'' @ ''ConnectOriginsToDestinations'') ''j1'' (Some ''old''),
        GenerateToken ''user'' ''secret'',
        Sleep 3,
        GetStatus (''https://analysis.example/'' @ ''ConnectOriginsToDestinations'') ''j1'' (Some ''new''),
        GetRoutes (''https://analysis.example/'' @ ''ConnectOriginsToDestinations'') ''j1''
          ''results/routesLayer'' (Some ''new'')])"
  by (rule token_refreshed_once)








end
